theory Spec2Isabelle
  imports Main
begin

section \<open>Strings\<close>

text \<open>
  A TypeScript string is modelled as a \<open>string\<close> whose characters are the code units
  U+0000 to U+00FF, so \<open>length\<close> is the \<open>.length\<close> of the source. The
  functions below are the built-in string methods the source calls, restricted to that range.
\<close>

definition isWhiteSpace :: "char \<Rightarrow> bool" where
  \<comment> \<open>white space and line terminators of \<open>String.prototype.trim\<close> and of \<open>\s\<close>:
      TAB, LF, VT, FF, CR, SPACE, NBSP\<close>
  "isWhiteSpace c =
     (c = CHR 0x09 \<or> c = CHR 0x0A \<or> c = CHR 0x0B \<or> c = CHR 0x0C \<or> c = CHR 0x0D
      \<or> c = CHR 0x20 \<or> c = CHR 0xA0)"

definition trim :: "string \<Rightarrow> string" where
  "trim s = rev (dropWhile isWhiteSpace (rev (dropWhile isWhiteSpace s)))"

definition lowerChar :: "char \<Rightarrow> char" where
  \<comment> \<open>A-Z and the upper-case letters of U+00C0..U+00DE (all but the multiplication sign)
      move up by 32, which sets bit 5\<close>
  "lowerChar c =
     (let n = (of_char c :: nat) in
      if (65 \<le> n \<and> n \<le> 90) \<or> (192 \<le> n \<and> n \<le> 222 \<and> n \<noteq> 215)
      then (case c of Char b0 b1 b2 b3 b4 b5 b6 b7 \<Rightarrow> Char b0 b1 b2 b3 b4 True b6 b7)
      else c)"

definition toLowerCase :: "string \<Rightarrow> string" where
  "toLowerCase s = map lowerChar s"

fun startsWith :: "string \<Rightarrow> string \<Rightarrow> bool" where
  "startsWith s [] = True"
| "startsWith [] (p # ps) = False"
| "startsWith (c # cs) (p # ps) = (c = p \<and> startsWith cs ps)"

fun includes_str :: "string \<Rightarrow> string \<Rightarrow> bool" where
  "includes_str [] p = startsWith [] p"
| "includes_str (c # cs) p = (startsWith (c # cs) p \<or> includes_str cs p)"

definition endsWith :: "string \<Rightarrow> string \<Rightarrow> bool" where
  "endsWith s p = startsWith (rev s) (rev p)"

fun join :: "string \<Rightarrow> string list \<Rightarrow> string" where
  "join sep [] = []"
| "join sep [x] = x"
| "join sep (x # y # ys) = x @ sep @ join sep (y # ys)"

fun splitCount :: "bool \<Rightarrow> string \<Rightarrow> nat" where
  \<comment> \<open>\<open>s.split(/\s+/).length\<close>: one more than the number of maximal runs of white space;
      the flag says that the previous character was white space\<close>
  "splitCount inRun [] = 1"
| "splitCount inRun (c # cs) =
     (if isWhiteSpace c then (if inRun then 0 else 1) + splitCount True cs
      else splitCount False cs)"

section \<open>SpeechToTextHelper: the classifiers\<close>

definition questionStarters :: "string list" where
  "questionStarters =
    [''what'', ''how'', ''why'', ''when'', ''where'', ''which'', ''who'', ''whose'', ''whom'',
     ''can you'', ''could you'', ''will you'', ''would you'', ''please'',
     ''tell me'', ''explain'', ''describe'', ''elaborate'', ''discuss'', ''compare'',
     ''can we'', ''should we'', ''shall we'',
     ''do you'', ''did you'', ''have you'', ''are you'', ''is there'', ''are there'',
     ''solve'', ''implement'', ''write'', ''code'', ''design'', ''create'']"

definition imperativePhrases :: "string list" where
  "imperativePhrases =
    [''let me know'', ''think about'', ''consider'', ''look at'', ''show me'',
     ''walk me through'', ''talk about'', ''go through'']"

definition interviewPatterns :: "string list" where
  "interviewPatterns =
    [''algorithm'', ''complexity'', ''optimize'', ''efficient'', ''solution'',
     ''approach'', ''strategy'', ''method'', ''technique'', ''implement'',
     ''time complexity'', ''space complexity'', ''big o'', ''runtime'']"

definition hasQuestionStarter :: "string \<Rightarrow> bool" where
  "hasQuestionStarter lowerText =
     list_ex (\<lambda>starter.
        startsWith lowerText (starter @ '' '') \<or>
        startsWith lowerText (starter @ '','') \<or>
        includes_str lowerText ('' '' @ starter @ '' '') \<or>
        includes_str lowerText ('', '' @ starter @ '' '')) questionStarters"

definition isLikelyQuestion :: "string \<Rightarrow> bool" where
  "isLikelyQuestion text' =
     (if text' = [] \<or> length (trim text') < 3 then False
      else let trimmedText = trim text' in
        if includes_str trimmedText ''?'' then True
        else let lowerText = toLowerCase trimmedText;
                 hasImperative = list_ex (\<lambda>phrase. includes_str lowerText phrase) imperativePhrases;
                 hasInterviewPattern =
                   list_ex (\<lambda>pattern. includes_str lowerText pattern) interviewPatterns
             in hasQuestionStarter lowerText \<or> hasImperative \<or> hasInterviewPattern)"

text \<open>
  The regular expression of \<open>isQuestionComplete\<close>,
  \<^verbatim>\<open>/\b(you|i|we|they|he|she|it|this|that|there)\s+(are|is|...|think)/i\<close>,
  tested at every position of the text: a word boundary, one of the subjects, a maximal
  non-empty run of white space (no verb starts with white space), one of the verbs, letters
  compared without case.
\<close>

definition subjects :: "string list" where
  "subjects = [''you'', ''i'', ''we'', ''they'', ''he'', ''she'', ''it'', ''this'', ''that'', ''there'']"

definition verbs :: "string list" where
  "verbs = [''are'', ''is'', ''can'', ''could'', ''should'', ''would'', ''will'', ''do'', ''did'',
            ''have'', ''has'', ''want'', ''need'', ''think'']"

definition isWordChar :: "char \<Rightarrow> bool" where
  \<comment> \<open>the class \<open>\w\<close>: A-Z, a-z, 0-9 and the underscore\<close>
  "isWordChar c =
     (let n = (of_char c :: nat) in
      (65 \<le> n \<and> n \<le> 90) \<or> (97 \<le> n \<and> n \<le> 122) \<or> (48 \<le> n \<and> n \<le> 57) \<or> n = 95)"

definition wordBoundary :: "char option \<Rightarrow> string \<Rightarrow> bool" where
  \<comment> \<open>\<open>\b\<close> between the previous character (none at the start) and the rest\<close>
  "wordBoundary prev rest =
     ((case prev of None \<Rightarrow> False | Some c \<Rightarrow> isWordChar c)
      \<noteq> (case rest of [] \<Rightarrow> False | c # _ \<Rightarrow> isWordChar c))"

definition startsWithCI :: "string \<Rightarrow> string \<Rightarrow> bool" where
  "startsWithCI s p = startsWith (toLowerCase (take (length p) s)) p"

definition subjectVerbHere :: "char option \<Rightarrow> string \<Rightarrow> bool" where
  "subjectVerbHere prev rest =
     (wordBoundary prev rest \<and>
      list_ex (\<lambda>subj.
         startsWithCI rest subj \<and>
         (let after = drop (length subj) rest in
          (case after of [] \<Rightarrow> False | c # _ \<Rightarrow> isWhiteSpace c) \<and>
          list_ex (\<lambda>verb. startsWithCI (dropWhile isWhiteSpace after) verb) verbs)) subjects)"

fun subjectVerbFrom :: "char option \<Rightarrow> string \<Rightarrow> bool" where
  "subjectVerbFrom prev [] = subjectVerbHere prev []"
| "subjectVerbFrom prev (c # cs) = (subjectVerbHere prev (c # cs) \<or> subjectVerbFrom (Some c) cs)"

definition hasSubjectVerb :: "string \<Rightarrow> bool" where
  "hasSubjectVerb s = subjectVerbFrom None s"

definition MIN_QUESTION_LENGTH :: nat where
  "MIN_QUESTION_LENGTH = 10"

definition endsWithPunctuation :: "string \<Rightarrow> bool" where
  \<comment> \<open>\<^verbatim>\<open>/[.!?]$/\<close>: the last character is one of the three\<close>
  "endsWithPunctuation s =
     (case rev s of [] \<Rightarrow> False | c # _ \<Rightarrow> c = CHR ''.'' \<or> c = CHR ''!'' \<or> c = CHR ''?'')"

definition isQuestionComplete :: "string \<Rightarrow> bool" where
  "isQuestionComplete text' =
     (if text' = [] \<or> length (trim text') < MIN_QUESTION_LENGTH then False
      else let trimmedText = trim text' in
        if endsWithPunctuation trimmedText then True
        else if length trimmedText > 50 \<and> isLikelyQuestion trimmedText
                \<and> hasSubjectVerb trimmedText then True
        else False)"

section \<open>SpeechToTextHelper: the session state\<close>

record QuestionBuffer =
  text' :: string
  speaker :: "int option"
  lastUpdateTime :: int
  wordCount :: nat
  hasQuestionMarkers :: bool

text \<open>A word of a transcript result; \<open>wspeaker\<close> is \<open>None\<close> where \<open>word.speaker\<close> is undefined.\<close>

record dg_word =
  word :: string
  wspeaker :: "int option"

datatype timer_action = ProcessQuestionBuffer | ResetDiarizedFlag

text \<open>
  The fields of the class that the segmentation code reads or writes, and its effects made
  explicit: \<open>ticks\<close> counts the readings of \<open>Date.now()\<close> taken so far (the n-th reading is
  \<open>clk n\<close> for a clock \<open>clk\<close> given from outside), \<open>timers\<close> holds the pending
  \<open>setTimeout\<close> callbacks as (handle, delay, action), \<open>emitted\<close> the
  \<open>'transcription'\<close> events emitted and \<open>sent\<close> the \<open>'speech-transcription'\<close> messages
  sent to the window.
\<close>

record stt =
  isListening :: bool
  liveTcp :: bool
  sttMainWindow :: bool
  processingDiarizedTranscript :: bool
  processedTranscriptIds :: "string set"
  lastEmittedTranscript :: string
  lastEmittedTime :: int
  firstSpeakerId :: "int option"
  questionBuffer :: "QuestionBuffer option"
  questionCompletionTimer :: "nat option"
  lastSpeakerActivity :: "int \<rightharpoonup> int"
  currentActiveSpeaker :: "int option"
  silenceStartTime :: "int option"
  ticks :: nat
  timers :: "(nat \<times> nat \<times> timer_action) list"
  nextTimer :: nat
  emitted :: "string list"
  sent :: "string list"

type_synonym clock = "nat \<Rightarrow> int"

definition EMIT_DEBOUNCE_TIME :: int where
  "EMIT_DEBOUNCE_TIME = 8000"

definition QUESTION_COMPLETION_PAUSE :: int where
  "QUESTION_COMPLETION_PAUSE = 2000"

definition MAX_QUESTION_BUFFER_TIME :: int where
  "MAX_QUESTION_BUFFER_TIME = 30000"

definition SPEAKER_SWITCH_THRESHOLD :: int where
  "SPEAKER_SWITCH_THRESHOLD = 1500"

definition tick :: "stt \<Rightarrow> stt" where
  "tick s = s\<lparr>ticks := Suc (ticks s)\<rparr>"

definition setTimeout :: "timer_action \<Rightarrow> nat \<Rightarrow> stt \<Rightarrow> nat \<times> stt" where
  "setTimeout a delay s =
     (nextTimer s, s\<lparr>timers := timers s @ [(nextTimer s, delay, a)], nextTimer := Suc (nextTimer s)\<rparr>)"

definition clearTimeout :: "nat \<Rightarrow> stt \<Rightarrow> stt" where
  "clearTimeout h s = s\<lparr>timers := filter (\<lambda>t. fst t \<noteq> h) (timers s)\<rparr>"

definition clearCompletionTimer :: "stt \<Rightarrow> stt" where
  \<comment> \<open>\<open>if (this.questionCompletionTimer) { clearTimeout(...); this.questionCompletionTimer = null }\<close>\<close>
  "clearCompletionTimer s =
     (case questionCompletionTimer s of
        None \<Rightarrow> s
      | Some h \<Rightarrow> (clearTimeout h s)\<lparr>questionCompletionTimer := None\<rparr>)"

definition resetVADState :: "stt \<Rightarrow> stt" where
  "resetVADState s =
     clearCompletionTimer
       (s\<lparr>firstSpeakerId := None, questionBuffer := None, currentActiveSpeaker := None,
          silenceStartTime := None, lastSpeakerActivity := Map.empty\<rparr>)"

definition emitCompleteQuestion :: "clock \<Rightarrow> stt \<Rightarrow> string \<Rightarrow> stt" where
  "emitCompleteQuestion clk s questionText =
     (if questionText = [] \<or> length (trim questionText) = 0 then s
      else let trimmedQuestion = trim questionText in
        if \<not> isLikelyQuestion trimmedQuestion then s
        else let now = clk (ticks s); s1 = tick s in
          if trimmedQuestion = lastEmittedTranscript s1
             \<and> now - lastEmittedTime s1 < EMIT_DEBOUNCE_TIME then s1
          else s1\<lparr>lastEmittedTranscript := trimmedQuestion, lastEmittedTime := now,
                  emitted := emitted s1 @ [trimmedQuestion]\<rparr>)"

definition shouldEmit :: "stt \<Rightarrow> QuestionBuffer \<Rightarrow> int \<Rightarrow> bool" where
  "shouldEmit s qb now =
     (let timeSinceLastUpdate = now - lastUpdateTime qb;
          totalBufferTime = now - (lastUpdateTime qb - timeSinceLastUpdate)
      in (timeSinceLastUpdate \<ge> QUESTION_COMPLETION_PAUSE \<and> isLikelyQuestion (text' qb))
         \<or> isQuestionComplete (text' qb)
         \<or> totalBufferTime \<ge> MAX_QUESTION_BUFFER_TIME
         \<or> (currentActiveSpeaker s \<noteq> None \<and> currentActiveSpeaker s \<noteq> speaker qb))"

definition processQuestionBuffer :: "clock \<Rightarrow> stt \<Rightarrow> stt" where
  "processQuestionBuffer clk s =
     (case questionBuffer s of
        None \<Rightarrow> s
      | Some qb \<Rightarrow>
          let now = clk (ticks s); s1 = tick s in
          if shouldEmit s1 qb now
          then clearCompletionTimer ((emitCompleteQuestion clk s1 (text' qb))\<lparr>questionBuffer := None\<rparr>)
          else s1)"

definition handleSpeakerActivity :: "clock \<Rightarrow> stt \<Rightarrow> int option \<Rightarrow> stt" where
  "handleSpeakerActivity clk s spk =
     (case spk of
        None \<Rightarrow> s
      | Some sp \<Rightarrow>
          let now = clk (ticks s); s1 = tick s;
              lastActivity = (case lastSpeakerActivity s1 sp of None \<Rightarrow> 0 | Some t \<Rightarrow> t);
              s2 = s1\<lparr>lastSpeakerActivity := (lastSpeakerActivity s1)(sp \<mapsto> now)\<rparr>;
              s3 = (if currentActiveSpeaker s2 \<noteq> None \<and> currentActiveSpeaker s2 \<noteq> Some sp
                       \<and> now - lastActivity > SPEAKER_SWITCH_THRESHOLD
                    then (if (case questionBuffer s2 of None \<Rightarrow> False
                              | Some qb \<Rightarrow> speaker qb = Some 0) \<and> sp = 1
                          then processQuestionBuffer clk s2 else s2)
                    else s2)
          in s3\<lparr>currentActiveSpeaker := Some sp\<rparr>)"

definition startCompletionTimer :: "stt \<Rightarrow> stt" where
  \<comment> \<open>\<open>this.questionCompletionTimer = setTimeout(() => this.processQuestionBuffer(), 2000)\<close>\<close>
  "startCompletionTimer s =
     (case setTimeout ProcessQuestionBuffer 2000 s of
        (h, s1) \<Rightarrow> s1\<lparr>questionCompletionTimer := Some h\<rparr>)"

definition updateQuestionBuffer :: "clock \<Rightarrow> stt \<Rightarrow> string \<Rightarrow> int option \<Rightarrow> bool \<Rightarrow> stt" where
  "updateQuestionBuffer clk s txt spk isFinal =
     (let now = clk (ticks s); s1 = tick s;
          s2 = (case questionBuffer s1 of
                  None \<Rightarrow>
                    if isLikelyQuestion txt
                    then startCompletionTimer
                           (s1\<lparr>questionBuffer := Some
                                 \<lparr>text' = txt, speaker = spk, lastUpdateTime = now,
                                  wordCount = splitCount False txt,
                                  hasQuestionMarkers = includes_str txt ''?''\<rparr>\<rparr>)
                    else s1
                | Some qb \<Rightarrow>
                    if spk = None \<or> spk = speaker qb
                    then let s' = s1\<lparr>questionBuffer := Some
                                      (qb\<lparr>text' := txt, lastUpdateTime := now,
                                          wordCount := splitCount False txt,
                                          hasQuestionMarkers := includes_str txt ''?''\<rparr>)\<rparr>;
                             s'' = (case questionCompletionTimer s' of
                                      None \<Rightarrow> s' | Some h \<Rightarrow> clearTimeout h s')
                         in startCompletionTimer s''
                    else s1)
      in if isFinal \<and> questionBuffer s2 \<noteq> None
         then snd (setTimeout ProcessQuestionBuffer 300 s2) else s2)"

definition mappedSpeaker :: "int option \<Rightarrow> int option \<Rightarrow> int option" where
  \<comment> \<open>the constant \<open>mappedSpeaker\<close> of the word loop, from \<open>this.firstSpeakerId\<close> and
      \<open>originalSpeaker\<close>\<close>
  "mappedSpeaker first originalSpeaker =
     (if first \<noteq> None \<and> originalSpeaker \<noteq> None
      then (if originalSpeaker = first then Some 0 else Some 1)
      else originalSpeaker)"

definition identifyFirstSpeaker :: "stt \<Rightarrow> dg_word list \<Rightarrow> stt" where
  "identifyFirstSpeaker s ws =
     (if firstSpeakerId s = None
      then (case find (\<lambda>w. wspeaker w \<noteq> None) ws of
              None \<Rightarrow> s
            | Some w \<Rightarrow> s\<lparr>firstSpeakerId := wspeaker w\<rparr>)
      else s)"

type_synonym segment = "int option \<times> string"

fun segmentLoop ::
  "clock \<Rightarrow> dg_word list \<Rightarrow> segment list \<times> int option \<times> string \<times> stt
     \<Rightarrow> segment list \<times> int option \<times> string \<times> stt" where
  "segmentLoop clk [] acc = acc"
| "segmentLoop clk (w # ws) (speakerSegments, currentSpeaker, currentText, s) =
     (let m = mappedSpeaker (firstSpeakerId s) (wspeaker w);
          flush = (m \<noteq> currentSpeaker \<and> trim currentText \<noteq> []);
          segs1 = (if flush then speakerSegments @ [(currentSpeaker, trim currentText)]
                   else speakerSegments);
          txt1 = (if flush then [] else currentText);
          s1 = (if m \<noteq> None then handleSpeakerActivity clk s m else s)
      in segmentLoop clk ws (segs1, m, txt1 @ '' '' @ word w, s1))"

definition formatSegment :: "segment \<Rightarrow> string" where
  "formatSegment seg =
     (if fst seg = Some 0 then ''Interviewer'' else ''You'') @ '': '' @ snd seg @ [CHR 0x0A]"

definition handleDiarizedTranscript :: "clock \<Rightarrow> stt \<Rightarrow> dg_word list \<Rightarrow> bool \<Rightarrow> stt" where
  "handleDiarizedTranscript clk s ws isFinal =
     (case segmentLoop clk ws ([], None, [], identifyFirstSpeaker s ws) of
        (segs, currentSpeaker, currentText, s1) \<Rightarrow>
          let speakerSegments =
                (if trim currentText \<noteq> [] then segs @ [(currentSpeaker, trim currentText)]
                 else segs);
              formattedTranscript = concat (map formatSegment speakerSegments);
              s2 = (if sttMainWindow s1 then s1\<lparr>sent := sent s1 @ [trim formattedTranscript]\<rparr>
                    else s1);
              interviewerSegments = filter (\<lambda>seg. fst seg = Some 0) speakerSegments;
              s3 = (if interviewerSegments \<noteq> []
                    then updateQuestionBuffer clk s2
                           (join '' '' (map snd interviewerSegments)) (Some 0) isFinal
                    else s2)
          in snd (setTimeout ResetDiarizedFlag 500 s3))"

definition handleNonDiarizedTranscript :: "clock \<Rightarrow> stt \<Rightarrow> string \<Rightarrow> bool \<Rightarrow> stt" where
  "handleNonDiarizedTranscript clk s transcript isFinal =
     (let s1 = (if sttMainWindow s then s\<lparr>sent := sent s @ [transcript]\<rparr> else s)
      in if \<not> processingDiarizedTranscript s1
         then updateQuestionBuffer clk s1 transcript None isFinal else s1)"

definition hasDiarization :: "dg_word list \<Rightarrow> bool" where
  "hasDiarization ws = (length ws > 0 \<and> list_ex (\<lambda>w. wspeaker w \<noteq> None) ws)"

definition onTranscript :: "clock \<Rightarrow> stt \<Rightarrow> string \<Rightarrow> dg_word list \<Rightarrow> bool \<Rightarrow> stt" where
  \<comment> \<open>the handler of \<open>LiveTranscriptionEvents.Transcript\<close>, for a result that has a first
      alternative; an absent word list is the empty one\<close>
  "onTranscript clk s transcript ws isFinal =
     (if transcript \<noteq> [] \<and> trim transcript \<noteq> []
      then (if hasDiarization ws \<and> length ws > 0
            then handleDiarizedTranscript clk (s\<lparr>processingDiarizedTranscript := True\<rparr>) ws isFinal
            else handleNonDiarizedTranscript clk s transcript isFinal)
      else s)"

definition fireTimer :: "clock \<Rightarrow> stt \<Rightarrow> nat \<Rightarrow> stt" where
  \<comment> \<open>a pending timeout expires: it leaves the timer table and its callback runs\<close>
  "fireTimer clk s h =
     (case find (\<lambda>t. fst t = h) (timers s) of
        None \<Rightarrow> s
      | Some (_, _, a) \<Rightarrow>
          let s1 = clearTimeout h s in
          (case a of
             ProcessQuestionBuffer \<Rightarrow> processQuestionBuffer clk s1
           | ResetDiarizedFlag \<Rightarrow> s1\<lparr>processingDiarizedTranscript := False\<rparr>))"

definition stopListening :: "bool \<Rightarrow> stt \<Rightarrow> stt \<times> bool" where
  \<comment> \<open>\<open>finishThrows\<close> says whether \<open>this.liveTcp.finish()\<close> throws\<close>
  "stopListening finishThrows s =
     (if \<not> isListening s \<or> \<not> liveTcp s then (s, False)
      else if finishThrows then (s, False)
      else (resetVADState (s\<lparr>isListening := False, processedTranscriptIds := {}\<rparr>), True))"

datatype stt_event = Transcript string "dg_word list" bool | TimerFired nat

fun sttStep :: "clock \<Rightarrow> stt \<Rightarrow> stt_event \<Rightarrow> stt" where
  "sttStep clk s (Transcript transcript ws isFinal) = onTranscript clk s transcript ws isFinal"
| "sttStep clk s (TimerFired h) = fireTimer clk s h"

fun sttRun :: "clock \<Rightarrow> stt \<Rightarrow> stt_event list \<Rightarrow> stt" where
  "sttRun clk s [] = s"
| "sttRun clk s (ev # evs) = sttRun clk (sttStep clk s ev) evs"

definition initialState :: stt where
  \<comment> \<open>the field initialisers of the class, for a helper constructed with a window\<close>
  "initialState =
     \<lparr>isListening = False, liveTcp = False, sttMainWindow = True,
      processingDiarizedTranscript = False, processedTranscriptIds = {},
      lastEmittedTranscript = [], lastEmittedTime = 0, firstSpeakerId = None,
      questionBuffer = None, questionCompletionTimer = None,
      lastSpeakerActivity = Map.empty, currentActiveSpeaker = None, silenceStartTime = None,
      ticks = 0, timers = [], nextTimer = 0, emitted = [], sent = []\<rparr>"

definition firstSpeaker :: "dg_word list \<Rightarrow> int option" where
  \<comment> \<open>the speaker id of the first word that carries one\<close>
  "firstSpeaker ws = (case find (\<lambda>w. wspeaker w \<noteq> None) ws of None \<Rightarrow> None | Some w \<Rightarrow> wspeaker w)"

fun observedWords :: "stt_event \<Rightarrow> dg_word list" where
  \<comment> \<open>the words that reach \<open>handleDiarizedTranscript\<close>\<close>
  "observedWords (Transcript transcript ws isFinal) =
     (if transcript \<noteq> [] \<and> trim transcript \<noteq> [] \<and> hasDiarization ws then ws else [])"
| "observedWords (TimerFired h) = []"

section \<open>The dispatch of transcriptions to the AI backend\<close>

definition candidateIndicators :: "string list" where
  "candidateIndicators =
    [''i think'', ''i believe'', ''i would'', ''i will'', ''i have'', ''i am'',
     ''my approach'', ''my solution'', ''my experience'', ''my understanding'',
     ''let me'', ''so basically'', ''essentially'', ''fundamentally'',
     ''the answer is'', ''the solution'', ''this problem'', ''this question'']"

definition interviewerPatterns :: "string list" where
  "interviewerPatterns =
    [''what'', ''how'', ''why'', ''when'', ''where'', ''which'', ''who'', ''whose'', ''whom'',
     ''can you'', ''could you'', ''will you'', ''would you'', ''please'',
     ''tell me'', ''explain'', ''describe'', ''elaborate'', ''discuss'', ''show me'',
     ''walk through'', ''think about'', ''consider'', ''solve'', ''implement'',
     ''write a function'', ''design a system'', ''optimize this'', ''improve'',
     ''time complexity'', ''space complexity'', ''algorithm'', ''approach'']"

definition hascandidateIndicators :: "string \<Rightarrow> bool" where
  "hascandidateIndicators trimmedText =
     list_ex (\<lambda>indicator. includes_str trimmedText indicator) candidateIndicators"

definition isValidInterviewQuestion :: "string \<Rightarrow> bool" where
  "isValidInterviewQuestion txt =
     (if txt = [] \<or> length (trim txt) < 10 then False
      else let trimmedText = toLowerCase (trim txt) in
        if hascandidateIndicators trimmedText then False
        else let hasInterviewerPattern =
                   list_ex (\<lambda>pattern. includes_str trimmedText pattern) interviewerPatterns
             in hasInterviewerPattern \<or> endsWith trimmedText ''?'')"

datatype outcome = Resolved string | Rejected "string option"

datatype ui_message = AiResponse string | AiResponseError string

text \<open>
  The module-level variables of the dispatch code and its effects: \<open>calls\<close> lists every call
  of \<open>processTranscriptionWithAI\<close> made so far (call \<open>k\<close> has the argument \<open>calls ! k\<close>),
  \<open>inFlight\<close> the calls awaited and not yet settled, \<open>pendingTimers\<close> the transcripts
  held by \<open>setTimeout(..., 100)\<close>, oldest first, and \<open>uiSent\<close> the messages sent to the
  window. \<open>Rejected (Some m)\<close> is an \<open>Error\<close> with message \<open>m\<close>.
\<close>

record dispatcher =
  lastProcessedText :: string
  lastProcessedTime :: int
  isCurrentlyProcessing :: bool
  processingQueue :: "string list"
  processingHelper :: bool
  mainWindow :: bool
  calls :: "string list"
  inFlight :: "nat list"
  pendingTimers :: "string list"
  uiSent :: "ui_message list"

definition DEBOUNCE_TIME :: int where
  "DEBOUNCE_TIME = 5000"

definition processNextInQueue :: "dispatcher \<Rightarrow> dispatcher" where
  "processNextInQueue s =
     (if length (processingQueue s) > 0 \<and> \<not> isCurrentlyProcessing s
      then (case processingQueue s of
              [] \<Rightarrow> s
            | nextTranscript # rest \<Rightarrow>
                let s1 = s\<lparr>processingQueue := rest\<rparr> in
                if nextTranscript \<noteq> []
                then s1\<lparr>pendingTimers := pendingTimers s1 @ [nextTranscript]\<rparr> else s1)
      else s)"

definition handleSpeechTranscription :: "dispatcher \<Rightarrow> string \<Rightarrow> int \<Rightarrow> dispatcher" where
  \<comment> \<open>the handler up to its \<open>await\<close>; \<open>now\<close> is its one reading of \<open>Date.now()\<close>\<close>
  "handleSpeechTranscription s transcript now =
     (if transcript = [] \<or> length (trim transcript) < 5 then s
      else let trimmedTranscript = trim transcript;
               timeSinceLastProcessed = now - lastProcessedTime s;
               isDuplicate = (trimmedTranscript = lastProcessedText s
                              \<and> timeSinceLastProcessed < DEBOUNCE_TIME)
      in if isDuplicate then s
         else if isCurrentlyProcessing s \<and> \<not> timeSinceLastProcessed > 30000
         then s\<lparr>processingQueue := processingQueue s @ [trimmedTranscript]\<rparr>
         else let s1 = (if isCurrentlyProcessing s then s\<lparr>isCurrentlyProcessing := False\<rparr> else s)
         in if \<not> isValidInterviewQuestion trimmedTranscript then s1
            else let s2 = s1\<lparr>isCurrentlyProcessing := True,
                             lastProcessedText := trimmedTranscript,
                             lastProcessedTime := now\<rparr>
            in if \<not> processingHelper s2
               then processNextInQueue (s2\<lparr>isCurrentlyProcessing := False\<rparr>)
               else s2\<lparr>calls := calls s2 @ [trimmedTranscript],
                       inFlight := inFlight s2 @ [length (calls s2)]\<rparr>)"

definition settle :: "dispatcher \<Rightarrow> nat \<Rightarrow> outcome \<Rightarrow> dispatcher" where
  \<comment> \<open>the rest of the handler once the awaited call \<open>k\<close> resolves or rejects\<close>
  "settle s k out =
     (if k \<notin> set (inFlight s) then s
      else let s1 = s\<lparr>inFlight := removeAll k (inFlight s)\<rparr> in
        (case out of
           Resolved response \<Rightarrow>
             let s2 = (if mainWindow s1 then s1\<lparr>uiSent := uiSent s1 @ [AiResponse response]\<rparr>
                       else s1)
             in processNextInQueue (s2\<lparr>isCurrentlyProcessing := False\<rparr>)
         | Rejected err \<Rightarrow>
             let s2 = s1\<lparr>isCurrentlyProcessing := False\<rparr>;
                 errorMessage = (case err of Some m \<Rightarrow> m | None \<Rightarrow> ''Error processing speech'');
                 s3 = (if mainWindow s2 then s2\<lparr>uiSent := uiSent s2 @ [AiResponseError errorMessage]\<rparr>
                       else s2)
             in processNextInQueue s3))"

definition timerExpired :: "dispatcher \<Rightarrow> int \<Rightarrow> dispatcher" where
  \<comment> \<open>the oldest 100 ms timeout expires and hands its transcript back to the handler\<close>
  "timerExpired s now =
     (case pendingTimers s of
        [] \<Rightarrow> s
      | t # ts \<Rightarrow> handleSpeechTranscription (s\<lparr>pendingTimers := ts\<rparr>) t now)"

datatype dispatch_event = Arrive string int | Settle nat outcome | TimerExpired int

fun dispatchStep :: "dispatcher \<Rightarrow> dispatch_event \<Rightarrow> dispatcher" where
  "dispatchStep s (Arrive transcript now) = handleSpeechTranscription s transcript now"
| "dispatchStep s (Settle k out) = settle s k out"
| "dispatchStep s (TimerExpired now) = timerExpired s now"

fun dispatchRun :: "dispatcher \<Rightarrow> dispatch_event list \<Rightarrow> dispatcher" where
  "dispatchRun s [] = s"
| "dispatchRun s (ev # evs) = dispatchRun (dispatchStep s ev) evs"

definition initialDispatcher :: dispatcher where
  \<comment> \<open>the initial values of the module's variables, with helper and window in place\<close>
  "initialDispatcher =
     \<lparr>lastProcessedText = [], lastProcessedTime = 0, isCurrentlyProcessing = False,
      processingQueue = [], processingHelper = True, mainWindow = True,
      calls = [], inFlight = [], pendingTimers = [], uiSent = []\<rparr>"

definition lockTimedOut :: "dispatcher \<Rightarrow> string \<Rightarrow> int \<Rightarrow> bool" where
  \<comment> \<open>the arrival reaches the lock while it is held and finds it older than 30 seconds\<close>
  "lockTimedOut s transcript now =
     (\<not> (transcript = [] \<or> length (trim transcript) < 5)
      \<and> \<not> (trim transcript = lastProcessedText s \<and> now - lastProcessedTime s < DEBOUNCE_TIME)
      \<and> isCurrentlyProcessing s \<and> now - lastProcessedTime s > 30000)"



section \<open>ProcessingHelper: the conversation history\<close>

record turn =
  role :: string
  content :: string

definition maxHistoryLength :: int where
  "maxHistoryLength = 10"

definition relIndex :: "int \<Rightarrow> nat \<Rightarrow> nat" where
  \<comment> \<open>the relative index of \<open>Array.prototype.slice\<close>: negative counts from the end\<close>
  "relIndex k len = (if k < 0 then nat (max (int len + k) 0) else min (nat k) len)"

definition slice :: "'a list \<Rightarrow> int \<Rightarrow> int \<Rightarrow> 'a list" where
  "slice xs start end' =
     (let a = relIndex start (length xs); b = relIndex end' (length xs)
      in take (b - a) (drop a xs))"

definition sliceFrom :: "'a list \<Rightarrow> int \<Rightarrow> 'a list" where
  "sliceFrom xs start = drop (relIndex start (length xs)) xs"

definition recordExchange :: "turn list \<Rightarrow> string \<Rightarrow> string \<Rightarrow> turn list" where
  \<comment> \<open>the update of the history on a response, the same in the OpenAI and the Gemini path\<close>
  "recordExchange conversationHistory transcript assistantResponse =
     (let h = conversationHistory @
                [\<lparr>role = ''user'', content = transcript\<rparr>,
                 \<lparr>role = ''assistant'', content = assistantResponse\<rparr>]
      in if int (length h) > maxHistoryLength * 2
         then slice h 0 2 @ sliceFrom h (- maxHistoryLength * 2 + 2)
         else h)"




















text \<open>
  \<open>historyFile\<close> is the content of \<open>conversation_history.json\<close> (\<open>None\<close>: no such file).
  The flags say whether \<open>writeFileSync\<close> and \<open>readFileSync\<close> throw; both errors are
  caught by the source.
\<close>

record helper =
  conversationHistory :: "turn list"
  historyFile :: "string option"



section \<open>Predicates and example sessions used in the statements\<close>

definition isOther :: "int \<Rightarrow> dg_word \<Rightarrow> bool" where
  \<comment> \<open>the word carries a speaker id other than \<open>f\<close>\<close>
  "isOther f w = (case wspeaker w of None \<Rightarrow> False | Some x \<Rightarrow> x \<noteq> f)"

text \<open>
  The roles as the specification words them: given the interviewer, the first speaker id of
  the session, a word of that speaker has role 0, a word of any other speaker role 1, and a
  word without a speaker id no role. \<open>groupByRole\<close> groups a list of words, each with
  its role, into segments of consecutive words of one role, as a function of the roles and
  the words alone; \<open>roleSegments\<close> are the segments of an event, and \<open>loopState\<close> is
  the state in which the word loop of the handler ends.
\<close>

definition speakerRole :: "int option \<Rightarrow> int option \<Rightarrow> int option" where
  "speakerRole interviewer originalSpeaker =
     (case originalSpeaker of
        None \<Rightarrow> None
      | Some x \<Rightarrow> if Some x = interviewer then Some 0 else Some 1)"

fun groupByRole ::
  "(int option \<times> string) list \<Rightarrow> segment list \<times> int option \<times> string
     \<Rightarrow> segment list \<times> int option \<times> string" where
  "groupByRole [] acc = acc"
| "groupByRole ((r, w) # rest) (segs, cur, tx) =
     (if r \<noteq> cur \<and> trim tx \<noteq> []
      then groupByRole rest (segs @ [(cur, trim tx)], r, '' '' @ w)
      else groupByRole rest (segs, r, tx @ '' '' @ w))"

definition roleSegments :: "int option \<Rightarrow> dg_word list \<Rightarrow> segment list" where
  "roleSegments interviewer ws =
     (case groupByRole (map (\<lambda>w. (speakerRole interviewer (wspeaker w), word w)) ws)
             ([], None, []) of
        (segs, cur, tx) \<Rightarrow> if trim tx \<noteq> [] then segs @ [(cur, trim tx)] else segs)"

definition loopState :: "clock \<Rightarrow> stt \<Rightarrow> dg_word list \<Rightarrow> stt" where
  "loopState clk s ws =
     snd (snd (snd (segmentLoop clk ws ([], None, [], identifyFirstSpeaker s ws))))"

definition singleFlight :: "dispatcher \<Rightarrow> bool" where
  \<comment> \<open>the lock is held exactly while one call is awaited\<close>
  "singleFlight s = (if isCurrentlyProcessing s then length (inFlight s) = 1 else inFlight s = [])"




definition spoken :: "int \<Rightarrow> string list \<Rightarrow> dg_word list" where
  "spoken i ws = map (\<lambda>w. \<lparr>word = w, wspeaker = Some i\<rparr>) ws"

definition exampleClock :: clock where
  "exampleClock n = 100000 + 10 * int n"

definition approached :: stt where
  \<comment> \<open>speaker 0 has just said a sentence that is a likely question and not complete\<close>
  "approached = sttRun exampleClock initialState
     [Transcript ''tell me about your approach''
        (spoken 0 [''tell'', ''me'', ''about'', ''your'', ''approach'']) False]"

definition greeting :: "stt_event list" where
  "greeting = [Transcript ''hello there''
                 [\<lparr>word = ''hello'', wspeaker = Some 7\<rparr>, \<lparr>word = ''there'', wspeaker = Some 4\<rparr>] True]"

definition followUp :: "dg_word list" where
  "followUp = [\<lparr>word = ''so'', wspeaker = Some 4\<rparr>, \<lparr>word = ''what'', wspeaker = Some 7\<rparr>,
               \<lparr>word = ''now'', wspeaker = None\<rparr>]"


definition stuck :: dispatcher where
  \<comment> \<open>one call in flight since time 1000, two transcripts queued\<close>
  "stuck = dispatchRun initialDispatcher
      [Arrive ''What is a hash map?'' 1000, Arrive ''How does a heap work?'' 2000,
       Arrive ''Why is quicksort fast?'' 3000]"

section \<open>Facts about the string functions\<close>

lemma dropWhile_rev_strip:
  assumes "A = [] \<or> \<not> P (hd A)"
  shows "dropWhile P (rev (dropWhile P (rev A))) = rev (dropWhile P (rev A))"
proof (cases A)
  case Nil
  then show ?thesis by simp
next
  case (Cons a as)
  with assms have "\<not> P a" by simp
  then have "dropWhile P (rev A) = dropWhile P (rev as) @ [a]"
    using Cons by (simp add: dropWhile_append3)
  with \<open>\<not> P a\<close> show ?thesis by simp
qed

lemma trim_idem: "trim (trim s) = trim s"
proof -
  let ?A = "dropWhile isWhiteSpace s"
  have hd: "?A = [] \<or> \<not> isWhiteSpace (hd ?A)"
    using hd_dropWhile [of isWhiteSpace s] by blast
  have "dropWhile isWhiteSpace (trim s) = trim s"
    unfolding trim_def using dropWhile_rev_strip [of "?A" isWhiteSpace] hd by blast
  then show ?thesis
    by (simp add: trim_def)
qed

lemma trim_Nil: "trim [] = []"
  by (simp add: trim_def)

lemma isLikelyQuestion_trim: "isLikelyQuestion (trim s) = isLikelyQuestion s"
  by (auto simp: isLikelyQuestion_def trim_idem trim_Nil Let_def)

lemma isLikelyQuestion_nonempty: "isLikelyQuestion s \<Longrightarrow> s \<noteq> [] \<and> 3 \<le> length (trim s)"
  by (auto simp: isLikelyQuestion_def split: if_splits)

section \<open>The emission gate\<close>

text \<open>
  Claim C3. For a text that passes \<open>isLikelyQuestion\<close>, \<open>emitCompleteQuestion\<close> suppresses
  the emission exactly when the trimmed text equals the last emitted text and fewer than
  8000 ms have passed since that emission (it then only consumes one clock reading);
  otherwise it records the trimmed text and the time read as the new emission record and
  emits the trimmed text. So a text that differs from the last emitted one is emitted
  whatever the elapsed time.
\<close>

theorem emitCompleteQuestion_gate:
  assumes "isLikelyQuestion questionText"
  shows "emitCompleteQuestion clk s questionText =
     (if trim questionText = lastEmittedTranscript s
         \<and> clk (ticks s) - lastEmittedTime s < 8000
      then tick s
      else (tick s)\<lparr>lastEmittedTranscript := trim questionText,
                    lastEmittedTime := clk (ticks s),
                    emitted := emitted s @ [trim questionText]\<rparr>)"
proof -
  from isLikelyQuestion_nonempty [OF assms]
  have ne: "questionText \<noteq> []" and tne: "trim questionText \<noteq> []"
    by auto
  from assms have lk: "isLikelyQuestion (trim questionText)"
    by (simp add: isLikelyQuestion_trim)
  show ?thesis
    by (simp add: emitCompleteQuestion_def ne tne lk Let_def tick_def EMIT_DEBOUNCE_TIME_def)
qed

theorem emitCompleteQuestion_gate_witness:
  "isLikelyQuestion ''  Why is it slow? '' \<and>
   emitted (emitCompleteQuestion (\<lambda>n. 5000) initialState ''  Why is it slow? '')
     = [''Why is it slow?''] \<and>
   emitted (emitCompleteQuestion (\<lambda>n. 5000)
     (initialState\<lparr>lastEmittedTranscript := ''Why is it slow?'', lastEmittedTime := 1000\<rparr>)
       ''  Why is it slow? '') = []"
proof -
  have h: "isLikelyQuestion ''  Why is it slow? ''" by code_simp
  have t: "trim ''  Why is it slow? '' = ''Why is it slow?''" by code_simp
  show ?thesis
    using h emitCompleteQuestion_gate [OF h, of "\<lambda>n. 5000" initialState]
      emitCompleteQuestion_gate [OF h, of "\<lambda>n. 5000"
        "initialState\<lparr>lastEmittedTranscript := ''Why is it slow?'', lastEmittedTime := 1000\<rparr>"]
    by (simp add: t initialState_def tick_def)
qed

section \<open>The completion classifier\<close>

text \<open>
  The claim that every text ending in terminal punctuation is complete fails on short texts:
  \<open>isQuestionComplete\<close> first rejects every text whose trimmed length is below
  \<open>MIN_QUESTION_LENGTH\<close>.
\<close>

theorem isQuestionComplete_short_counterexample:
  "endsWithPunctuation ''Why?'' \<and> \<not> isQuestionComplete ''Why?''"
  by code_simp

text \<open>
  Claim C4, amended. \<open>isQuestionComplete\<close> returns true exactly when the trimmed text has
  at least 10 characters and either ends in \<open>.\<close>, \<open>!\<close> or \<open>?\<close>, or has more than 50
  characters, is a likely question and matches the subject and verb pattern; it returns
  false otherwise, in particular for every text whose trimmed length is below 10.
\<close>

theorem isQuestionComplete_char:
  "isQuestionComplete t =
     (length (trim t) \<ge> 10 \<and>
      (endsWithPunctuation (trim t) \<or>
       (length (trim t) > 50 \<and> isLikelyQuestion t \<and> hasSubjectVerb (trim t))))"
  by (auto simp: isQuestionComplete_def MIN_QUESTION_LENGTH_def isLikelyQuestion_trim trim_Nil
        Let_def)

theorem isQuestionComplete_char_witness:
  "isQuestionComplete ''What is the time complexity?'' \<and>
   length (trim ''What is the time complexity?'') \<ge> 10 \<and>
   endsWithPunctuation (trim ''What is the time complexity?'')"
proof -
  have "length (trim ''What is the time complexity?'') \<ge> 10" by code_simp
  moreover have "endsWithPunctuation (trim ''What is the time complexity?'')" by code_simp
  ultimately show ?thesis
    using isQuestionComplete_char [of "''What is the time complexity?''"] by simp
qed

section \<open>Stopping a session\<close>

text \<open>
  \<open>resetVADState\<close> does not touch the emission record: a session stopped after emitting
  a question still holds that question and its time.
\<close>

theorem stopListening_emission_counterexample:
  "snd (stopListening False
     (initialState\<lparr>isListening := True, liveTcp := True,
        lastEmittedTranscript := ''What is a hash map?'', lastEmittedTime := 1000\<rparr>)) = True
   \<and> lastEmittedTranscript (fst (stopListening False
     (initialState\<lparr>isListening := True, liveTcp := True,
        lastEmittedTranscript := ''What is a hash map?'', lastEmittedTime := 1000\<rparr>)))
      = ''What is a hash map?''
   \<and> lastEmittedTime (fst (stopListening False
     (initialState\<lparr>isListening := True, liveTcp := True,
        lastEmittedTranscript := ''What is a hash map?'', lastEmittedTime := 1000\<rparr>))) = 1000"
  by (simp add: stopListening_def resetVADState_def clearCompletionTimer_def initialState_def)

text \<open>
  Claim C8, amended. After a \<open>stopListening\<close> that returns true, whatever the state
  before, the first-speaker id, the question buffer, the active speaker, the silence start,
  the speaker activity table and the completion timer are cleared and the helper no longer
  listens; the emission record (last emitted text and its time) is left as it was.
\<close>

theorem stopListening_resets:
  assumes "stopListening finishThrows s = (s', True)"
  shows "firstSpeakerId s' = None \<and> questionBuffer s' = None
       \<and> currentActiveSpeaker s' = None \<and> silenceStartTime s' = None
       \<and> lastSpeakerActivity s' = Map.empty \<and> questionCompletionTimer s' = None
       \<and> \<not> isListening s'
       \<and> lastEmittedTranscript s' = lastEmittedTranscript s
       \<and> lastEmittedTime s' = lastEmittedTime s"
  using assms
  by (auto simp: stopListening_def resetVADState_def clearCompletionTimer_def clearTimeout_def
           split: if_splits option.splits)

theorem stopListening_resets_witness:
  "stopListening False (initialState\<lparr>isListening := True, liveTcp := True,
      firstSpeakerId := Some 3, lastEmittedTranscript := ''What is a hash map?''\<rparr>)
    = (initialState\<lparr>liveTcp := True, lastEmittedTranscript := ''What is a hash map?''\<rparr>, True)
   \<and> firstSpeakerId
        (initialState\<lparr>liveTcp := True, lastEmittedTranscript := ''What is a hash map?''\<rparr>) = None
   \<and> lastEmittedTranscript
        (initialState\<lparr>liveTcp := True, lastEmittedTranscript := ''What is a hash map?''\<rparr>)
       = ''What is a hash map?''"
proof -
  have h: "stopListening False (initialState\<lparr>isListening := True, liveTcp := True,
      firstSpeakerId := Some 3, lastEmittedTranscript := ''What is a hash map?''\<rparr>)
    = (initialState\<lparr>liveTcp := True, lastEmittedTranscript := ''What is a hash map?''\<rparr>, True)"
    by (simp add: stopListening_def resetVADState_def clearCompletionTimer_def initialState_def)
  show ?thesis using h stopListening_resets [OF h] by simp
qed

section \<open>The bound on the conversation history\<close>

lemma slice_first_pair: "slice h 0 2 = take 2 h"
proof -
  have "take (min 2 (length h)) h = take 2 h"
    by (cases "2 \<le> length h") (simp_all add: min_def)
  then show ?thesis
    by (simp add: slice_def relIndex_def Let_def)
qed

lemma sliceFrom_recent: "sliceFrom h (- 18) = drop (length h - 18) h"
proof -
  have "relIndex (- 18) (length h) = length h - 18"
    by (simp add: relIndex_def)
  then show ?thesis by (simp add: sliceFrom_def)
qed

text \<open>
  Claim C7. After every append of a user and assistant exchange the history has at most
  \<open>2 * maxHistoryLength = 20\<close> turns. It is trimmed only when the appended history has more
  than 20 turns, and then the result is the first pair followed by the last 18 turns (the 9
  most recent pairs, the new exchange among them): the turns removed are the contiguous block
  right after the first pair.
\<close>

theorem recordExchange_cap:
  fixes h :: "turn list" and q a :: string
  defines "h' \<equiv> h @ [\<lparr>role = ''user'', content = q\<rparr>, \<lparr>role = ''assistant'', content = a\<rparr>]"
  shows "int (length (recordExchange h q a)) \<le> 2 * maxHistoryLength
       \<and> (length h' \<le> 20 \<longrightarrow> recordExchange h q a = h')
       \<and> (length h' > 20 \<longrightarrow>
            recordExchange h q a = take 2 h' @ drop (length h' - 18) h'
            \<and> h' = take 2 h' @ take (length h' - 20) (drop 2 h') @ drop (length h' - 18) h')"
proof -
  have re: "recordExchange h q a =
      (if length h' > 20 then take 2 h' @ drop (length h' - 18) h' else h')"
    unfolding recordExchange_def h'_def
    by (simp add: maxHistoryLength_def slice_first_pair sliceFrom_recent Let_def)
  have split: "length h' > 20 \<Longrightarrow>
      h' = take 2 h' @ take (length h' - 20) (drop 2 h') @ drop (length h' - 18) h'"
  proof -
    assume big: "length h' > 20"
    have mid: "drop 2 h' = take (length h' - 20) (drop 2 h') @ drop (length h' - 20) (drop 2 h')"
      by (rule append_take_drop_id [symmetric])
    have "length h' - 20 + 2 = length h' - 18"
      using big by arith
    then have rest: "drop (length h' - 20) (drop 2 h') = drop (length h' - 18) h'"
      by (simp only: drop_drop)
    have "h' = take 2 h' @ drop 2 h'"
      by (rule append_take_drop_id [symmetric])
    with mid rest show ?thesis by metis
  qed
  show ?thesis
    using split by (auto simp: re maxHistoryLength_def)
qed

theorem recordExchange_cap_witness:
  "length (recordExchange
      (concat (replicate 10 [\<lparr>role = ''user'', content = ''q''\<rparr>, \<lparr>role = ''assistant'', content = ''a''\<rparr>]))
      ''why?'' ''because'') = 20
   \<and> recordExchange
      (concat (replicate 10 [\<lparr>role = ''user'', content = ''q''\<rparr>, \<lparr>role = ''assistant'', content = ''a''\<rparr>]))
      ''why?'' ''because''
     = concat (replicate 9 [\<lparr>role = ''user'', content = ''q''\<rparr>, \<lparr>role = ''assistant'', content = ''a''\<rparr>])
       @ [\<lparr>role = ''user'', content = ''why?''\<rparr>, \<lparr>role = ''assistant'', content = ''because''\<rparr>]"
  using recordExchange_cap [of "concat (replicate 10 [\<lparr>role = ''user'', content = ''q''\<rparr>, \<lparr>role = ''assistant'', content = ''a''\<rparr>])" "''why?''" "''because''"]
  by (simp add: eval_nat_numeral)

section \<open>Saving and loading the conversation history\<close>


















section \<open>Candidate speech is never sent to the backend\<close>

lemma valid_no_indicator:
  "isValidInterviewQuestion c \<Longrightarrow> \<not> hascandidateIndicators (toLowerCase (trim c))"
  by (auto simp: isValidInterviewQuestion_def Let_def split: if_splits)

lemma calls_processNextInQueue [simp]: "calls (processNextInQueue s) = calls s"
  by (simp add: processNextInQueue_def Let_def split: list.splits)

lemma inFlight_processNextInQueue [simp]: "inFlight (processNextInQueue s) = inFlight s"
  by (simp add: processNextInQueue_def Let_def split: list.splits)

lemma calls_handleSpeechTranscription:
  "calls (handleSpeechTranscription s t now) = calls s
   \<or> (calls (handleSpeechTranscription s t now) = calls s @ [trim t]
       \<and> inFlight (handleSpeechTranscription s t now) = inFlight s @ [length (calls s)]
       \<and> isValidInterviewQuestion (trim t))"
  by (simp add: handleSpeechTranscription_def Let_def)

lemma handle_rejects_candidate:
  assumes "hascandidateIndicators (toLowerCase (trim t))"
  shows "calls (handleSpeechTranscription s t now) = calls s
       \<and> inFlight (handleSpeechTranscription s t now) = inFlight s"
proof -
  have "\<not> isValidInterviewQuestion (trim t)"
    using valid_no_indicator [of "trim t"] assms by (auto simp: trim_idem)
  then show ?thesis
    by (simp add: handleSpeechTranscription_def Let_def)
qed

lemma calls_settle [simp]: "calls (settle s k out) = calls s"
  by (simp add: settle_def Let_def split: outcome.splits)

lemma calls_dispatchStep:
  "\<exists>new. calls (dispatchStep s ev) = calls s @ new \<and> (\<forall>c \<in> set new. isValidInterviewQuestion c)"
proof (cases ev)
  case (Arrive t now)
  then show ?thesis
    using calls_handleSpeechTranscription [of s t now] by auto
next
  case (Settle k out)
  then show ?thesis by simp
next
  case (TimerExpired now)
  show ?thesis
  proof (cases "pendingTimers s")
    case Nil
    with TimerExpired show ?thesis by (simp add: timerExpired_def)
  next
    case (Cons t ts)
    with TimerExpired show ?thesis
      using calls_handleSpeechTranscription [of "s\<lparr>pendingTimers := ts\<rparr>" t now]
      by (auto simp: timerExpired_def)
  qed
qed

lemma calls_dispatchRun:
  "\<exists>new. calls (dispatchRun s evs) = calls s @ new \<and> (\<forall>c \<in> set new. isValidInterviewQuestion c)"
proof (induction evs arbitrary: s)
  case Nil
  then show ?case by simp
next
  case (Cons ev evs)
  obtain n1 where n1: "calls (dispatchStep s ev) = calls s @ n1"
      "\<forall>c \<in> set n1. isValidInterviewQuestion c"
    using calls_dispatchStep by blast
  obtain n2 where n2: "calls (dispatchRun (dispatchStep s ev) evs) = calls (dispatchStep s ev) @ n2"
      "\<forall>c \<in> set n2. isValidInterviewQuestion c"
    using Cons.IH by blast
  have "calls (dispatchRun s (ev # evs)) = calls s @ (n1 @ n2)"
    using n1 n2 by simp
  moreover have "\<forall>c \<in> set (n1 @ n2). isValidInterviewQuestion c"
    using n1 n2 by auto
  ultimately show ?case by blast
qed

text \<open>
  Claim C10. A transcript whose trimmed, lower-cased text contains a phrase of the
  candidate-indicator list is never forwarded to the AI backend: the handler starts no call
  for it, and in every run of the dispatcher from every state, whatever is queued or waiting
  on a timer, no call made during the run has that transcript as its argument. This holds
  whatever else the text contains, a question mark or interviewer patterns included.
\<close>

theorem candidate_speech_never_dispatched:
  assumes "hascandidateIndicators (toLowerCase (trim transcript))"
  shows "calls (handleSpeechTranscription s transcript now) = calls s
       \<and> inFlight (handleSpeechTranscription s transcript now) = inFlight s
       \<and> trim transcript \<notin> set (drop (length (calls s')) (calls (dispatchRun s' evs)))"
proof -
  obtain new where new: "calls (dispatchRun s' evs) = calls s' @ new"
      "\<forall>c \<in> set new. isValidInterviewQuestion c"
    using calls_dispatchRun by blast
  have "\<not> isValidInterviewQuestion (trim transcript)"
    using valid_no_indicator [of "trim transcript"] assms by (auto simp: trim_idem)
  with new have "trim transcript \<notin> set (drop (length (calls s')) (calls (dispatchRun s' evs)))"
    by auto
  with handle_rejects_candidate [OF assms] show ?thesis by simp
qed

theorem candidate_speech_never_dispatched_witness:
  "hascandidateIndicators (toLowerCase (trim ''So I think this is how, right?''))
   \<and> (calls (handleSpeechTranscription initialDispatcher ''So I think this is how, right?'' 1000)
        = calls initialDispatcher
      \<and> inFlight (handleSpeechTranscription initialDispatcher ''So I think this is how, right?'' 1000)
        = inFlight initialDispatcher
      \<and> trim ''So I think this is how, right?'' \<notin>
          set (drop (length (calls initialDispatcher))
            (calls (dispatchRun initialDispatcher
              [Arrive ''What is a binary search tree?'' 1000,
               Arrive ''So I think this is how, right?'' 2000,
               Settle 0 (Resolved ''answer''), TimerExpired 3000]))))"
proof -
  have h: "hascandidateIndicators (toLowerCase (trim ''So I think this is how, right?''))"
    by code_simp
  show ?thesis
    using h candidate_speech_never_dispatched [OF h] by blast
qed

section \<open>The first speaker of a session\<close>

lemma firstSpeakerId_tick [simp]: "firstSpeakerId (tick s) = firstSpeakerId s"
  by (simp add: tick_def)

lemma firstSpeakerId_clearTimeout [simp]: "firstSpeakerId (clearTimeout h s) = firstSpeakerId s"
  by (simp add: clearTimeout_def)

lemma firstSpeakerId_setTimeout [simp]: "firstSpeakerId (snd (setTimeout a d s)) = firstSpeakerId s"
  by (simp add: setTimeout_def)

lemma firstSpeakerId_clearCompletionTimer [simp]:
  "firstSpeakerId (clearCompletionTimer s) = firstSpeakerId s"
  by (simp add: clearCompletionTimer_def split: option.splits)

lemma firstSpeakerId_startCompletionTimer [simp]:
  "firstSpeakerId (startCompletionTimer s) = firstSpeakerId s"
  by (simp add: startCompletionTimer_def setTimeout_def)

lemma firstSpeakerId_emitCompleteQuestion [simp]:
  "firstSpeakerId (emitCompleteQuestion clk s q) = firstSpeakerId s"
  by (simp add: emitCompleteQuestion_def Let_def)

lemma firstSpeakerId_processQuestionBuffer [simp]:
  "firstSpeakerId (processQuestionBuffer clk s) = firstSpeakerId s"
  by (simp add: processQuestionBuffer_def Let_def split: option.splits)

lemma firstSpeakerId_handleSpeakerActivity [simp]:
  "firstSpeakerId (handleSpeakerActivity clk s m) = firstSpeakerId s"
  by (simp add: handleSpeakerActivity_def Let_def split: option.splits)

lemma firstSpeakerId_updateQuestionBuffer [simp]:
  "firstSpeakerId (updateQuestionBuffer clk s txt spk isFinal) = firstSpeakerId s"
  by (simp add: updateQuestionBuffer_def Let_def split: option.splits)

lemma firstSpeakerId_segmentLoop:
  "firstSpeakerId (snd (snd (snd (segmentLoop clk ws (segs, cur, tx, s))))) = firstSpeakerId s"
  by (induction ws arbitrary: segs cur tx s) (simp_all add: Let_def)

lemma firstSpeakerId_handleDiarizedTranscript:
  "firstSpeakerId (handleDiarizedTranscript clk s ws isFinal)
     = firstSpeakerId (identifyFirstSpeaker s ws)"
proof -
  obtain segs cur tx s1 where
    loop: "segmentLoop clk ws ([], None, [], identifyFirstSpeaker s ws) = (segs, cur, tx, s1)"
    by (metis prod_cases4)
  have "firstSpeakerId s1 = firstSpeakerId (identifyFirstSpeaker s ws)"
    using firstSpeakerId_segmentLoop [of clk ws "[]" None "[]" "identifyFirstSpeaker s ws"] loop
    by simp
  then show ?thesis
    by (simp add: handleDiarizedTranscript_def loop Let_def)
qed

lemma firstSpeakerId_identify:
  "firstSpeakerId (identifyFirstSpeaker s ws)
     = (case firstSpeakerId s of Some f \<Rightarrow> Some f | None \<Rightarrow> firstSpeaker ws)"
  by (auto simp: identifyFirstSpeaker_def firstSpeaker_def split: option.splits)

lemma firstSpeakerId_handleNonDiarizedTranscript [simp]:
  "firstSpeakerId (handleNonDiarizedTranscript clk s t isFinal) = firstSpeakerId s"
  by (simp add: handleNonDiarizedTranscript_def Let_def)

lemma firstSpeakerId_fireTimer [simp]: "firstSpeakerId (fireTimer clk s h) = firstSpeakerId s"
  by (simp add: fireTimer_def Let_def split: option.splits timer_action.splits)

lemma firstSpeakerId_sttStep:
  "firstSpeakerId (sttStep clk s ev)
     = (case firstSpeakerId s of Some f \<Rightarrow> Some f | None \<Rightarrow> firstSpeaker (observedWords ev))"
proof (cases ev)
  case (Transcript t ws isFinal)
  then show ?thesis
    by (auto simp: onTranscript_def firstSpeakerId_handleDiarizedTranscript firstSpeakerId_identify
          firstSpeaker_def split: option.splits)
next
  case (TimerFired h)
  then show ?thesis by (simp add: firstSpeaker_def split: option.splits)
qed

lemma firstSpeaker_append:
  "firstSpeaker (xs @ ys) = (case firstSpeaker xs of Some f \<Rightarrow> Some f | None \<Rightarrow> firstSpeaker ys)"
  by (induction xs) (auto simp: firstSpeaker_def split: option.splits)

lemma firstSpeakerId_sttRun:
  "firstSpeakerId (sttRun clk s evs)
     = (case firstSpeakerId s of Some f \<Rightarrow> Some f
        | None \<Rightarrow> firstSpeaker (concat (map observedWords evs)))"
proof (induction evs arbitrary: s)
  case Nil
  then show ?case by (simp add: firstSpeaker_def split: option.splits)
next
  case (Cons ev evs)
  then show ?case
    by (simp add: firstSpeakerId_sttStep firstSpeaker_append split: option.splits)
qed

lemma firstSpeakerId_resetVADState [simp]: "firstSpeakerId (resetVADState s) = None"
  by (simp add: resetVADState_def)

lemma firstSpeaker_member:
  "w \<in> set ws \<Longrightarrow> wspeaker w = Some x \<Longrightarrow> firstSpeaker ws \<noteq> None"
  by (induction ws) (auto simp: firstSpeaker_def)

lemma emitCompleteQuestion_fields:
  "questionBuffer (emitCompleteQuestion clk a q) = questionBuffer a
   \<and> currentActiveSpeaker (emitCompleteQuestion clk a q) = currentActiveSpeaker a
   \<and> questionCompletionTimer (emitCompleteQuestion clk a q) = questionCompletionTimer a
   \<and> sttMainWindow (emitCompleteQuestion clk a q) = sttMainWindow a"
  by (simp add: emitCompleteQuestion_def tick_def Let_def)

lemma clearCompletionTimer_fields:
  "questionBuffer (clearCompletionTimer a) = questionBuffer a
   \<and> emitted (clearCompletionTimer a) = emitted a
   \<and> lastEmittedTranscript (clearCompletionTimer a) = lastEmittedTranscript a
   \<and> lastEmittedTime (clearCompletionTimer a) = lastEmittedTime a
   \<and> firstSpeakerId (clearCompletionTimer a) = firstSpeakerId a
   \<and> currentActiveSpeaker (clearCompletionTimer a) = currentActiveSpeaker a"
  by (simp add: clearCompletionTimer_def clearTimeout_def split: option.splits)

lemma sent_emitCompleteQuestion [simp]:
  "sent (emitCompleteQuestion clk a q) = sent a"
  "sttMainWindow (emitCompleteQuestion clk a q) = sttMainWindow a"
  "lastSpeakerActivity (emitCompleteQuestion clk a q) = lastSpeakerActivity a"
  by (simp_all add: emitCompleteQuestion_def tick_def Let_def)

lemma sent_clearCompletionTimer [simp]:
  "sent (clearCompletionTimer a) = sent a"
  "sttMainWindow (clearCompletionTimer a) = sttMainWindow a"
  "lastSpeakerActivity (clearCompletionTimer a) = lastSpeakerActivity a"
  by (simp_all add: clearCompletionTimer_def clearTimeout_def split: option.splits)

lemma sent_processQuestionBuffer [simp]:
  "sent (processQuestionBuffer clk a) = sent a"
  "sttMainWindow (processQuestionBuffer clk a) = sttMainWindow a"
  "lastSpeakerActivity (processQuestionBuffer clk a) = lastSpeakerActivity a"
  "currentActiveSpeaker (processQuestionBuffer clk a) = currentActiveSpeaker a"
  by (simp_all add: processQuestionBuffer_def tick_def Let_def clearCompletionTimer_fields
        emitCompleteQuestion_fields split: option.splits)

lemma fields_handleSpeakerActivity [simp]:
  "sent (handleSpeakerActivity clk a (Some sp)) = sent a"
  "sttMainWindow (handleSpeakerActivity clk a (Some sp)) = sttMainWindow a"
  "lastSpeakerActivity (handleSpeakerActivity clk a (Some sp))
     = (lastSpeakerActivity a)(sp \<mapsto> clk (ticks a))"
  "currentActiveSpeaker (handleSpeakerActivity clk a (Some sp)) = Some sp"
  by (simp_all add: handleSpeakerActivity_def tick_def Let_def)

lemma fields_updateQuestionBuffer [simp]:
  "sent (updateQuestionBuffer clk a t spk fin) = sent a"
  "lastSpeakerActivity (updateQuestionBuffer clk a t spk fin) = lastSpeakerActivity a"
  "currentActiveSpeaker (updateQuestionBuffer clk a t spk fin) = currentActiveSpeaker a"
  by (simp_all add: updateQuestionBuffer_def startCompletionTimer_def setTimeout_def
        clearTimeout_def tick_def Let_def split: option.splits)

lemma identifyFirstSpeaker_fields [simp]:
  "sent (identifyFirstSpeaker s ws) = sent s"
  "sttMainWindow (identifyFirstSpeaker s ws) = sttMainWindow s"
  "lastSpeakerActivity (identifyFirstSpeaker s ws) = lastSpeakerActivity s"
  "currentActiveSpeaker (identifyFirstSpeaker s ws) = currentActiveSpeaker s"
  by (simp_all add: identifyFirstSpeaker_def split: option.splits)

lemma mappedSpeaker_role:
  assumes "wspeaker w \<noteq> None \<longrightarrow> interviewer \<noteq> None"
  shows "mappedSpeaker interviewer (wspeaker w) = speakerRole interviewer (wspeaker w)"
  using assms by (auto simp: mappedSpeaker_def speakerRole_def split: option.splits)

lemma segmentLoop_groupByRole:
  assumes "firstSpeakerId s = interviewer"
      and "\<forall>w \<in> set ws. wspeaker w \<noteq> None \<longrightarrow> interviewer \<noteq> None"
  shows "(case segmentLoop clk ws (segs, cur, tx, s) of (segs', cur', tx', st) \<Rightarrow> (segs', cur', tx'))
           = groupByRole (map (\<lambda>w. (speakerRole interviewer (wspeaker w), word w)) ws)
               (segs, cur, tx)"
  using assms
proof (induction ws arbitrary: segs cur tx s)
  case Nil
  then show ?case by simp
next
  case (Cons w ws)
  have m: "mappedSpeaker (firstSpeakerId s) (wspeaker w) = speakerRole interviewer (wspeaker w)"
    using Cons.prems by (simp add: mappedSpeaker_role)
  have rest: "\<forall>w \<in> set ws. wspeaker w \<noteq> None \<longrightarrow> interviewer \<noteq> None"
    using Cons.prems(2) by simp
  show ?case
    using Cons.IH [OF _ rest] Cons.prems(1) m
    by (simp add: Let_def)
qed

lemma segmentLoop_fields:
  "sent (snd (snd (snd (segmentLoop clk ws (segs, cur, tx, s))))) = sent s
   \<and> sttMainWindow (snd (snd (snd (segmentLoop clk ws (segs, cur, tx, s))))) = sttMainWindow s"
proof (induction ws arbitrary: segs cur tx s)
  case Nil
  then show ?case by simp
next
  case (Cons w ws)
  show ?case
    by (cases "mappedSpeaker (firstSpeakerId s) (wspeaker w)")
       (simp_all add: Let_def Cons.IH)
qed

lemma segmentLoop_activity:
  assumes "firstSpeakerId s = interviewer"
      and "\<forall>w \<in> set ws. wspeaker w \<noteq> None \<longrightarrow> interviewer \<noteq> None"
  shows "(\<forall>r. (Some r \<in> set (map (\<lambda>w. speakerRole interviewer (wspeaker w)) ws)
                \<or> lastSpeakerActivity s r \<noteq> None)
            \<longrightarrow> lastSpeakerActivity (snd (snd (snd (segmentLoop clk ws (segs, cur, tx, s))))) r
                  \<noteq> None)
       \<and> currentActiveSpeaker (snd (snd (snd (segmentLoop clk ws (segs, cur, tx, s)))))
           = (if filter (\<lambda>r. r \<noteq> None) (map (\<lambda>w. speakerRole interviewer (wspeaker w)) ws) = []
              then currentActiveSpeaker s
              else last (filter (\<lambda>r. r \<noteq> None)
                          (map (\<lambda>w. speakerRole interviewer (wspeaker w)) ws)))"
  using assms
proof (induction ws arbitrary: segs cur tx s)
  case Nil
  then show ?case by simp
next
  case (Cons w ws)
  have m: "mappedSpeaker (firstSpeakerId s) (wspeaker w) = speakerRole interviewer (wspeaker w)"
    using Cons.prems by (simp add: mappedSpeaker_role)
  have rest: "\<forall>w \<in> set ws. wspeaker w \<noteq> None \<longrightarrow> interviewer \<noteq> None"
    using Cons.prems(2) by simp
  show ?case
  proof (cases "speakerRole interviewer (wspeaker w)")
    case None
    then show ?thesis
      using Cons.IH [OF Cons.prems(1) rest] m by (simp add: Let_def)
  next
    case (Some sp)
    let ?s1 = "handleSpeakerActivity clk s (Some sp)"
    have f1: "firstSpeakerId ?s1 = interviewer"
      using Cons.prems(1) by simp
    show ?thesis
      using Cons.IH [OF f1 rest] m Some by (auto simp: Let_def)
  qed
qed

lemma handleDiarizedTranscript_roles:
  assumes "firstSpeakerId (identifyFirstSpeaker s ws) = interviewer"
      and "\<forall>w \<in> set ws. wspeaker w \<noteq> None \<longrightarrow> interviewer \<noteq> None"
  shows "handleDiarizedTranscript clk s ws isFinal =
     snd (setTimeout ResetDiarizedFlag 500
       (let st = loopState clk s ws;
            speakerSegments = roleSegments interviewer ws;
            s2 = (if sttMainWindow st
                  then st\<lparr>sent := sent st @ [trim (concat (map formatSegment speakerSegments))]\<rparr>
                  else st);
            interviewerSegments = filter (\<lambda>seg. fst seg = Some 0) speakerSegments
        in if interviewerSegments \<noteq> []
           then updateQuestionBuffer clk s2 (join '' '' (map snd interviewerSegments)) (Some 0) isFinal
           else s2))"
proof -
  obtain segs cur tx st where
    loop: "segmentLoop clk ws ([], None, [], identifyFirstSpeaker s ws) = (segs, cur, tx, st)"
    by (metis prod_cases4)
  have g: "groupByRole (map (\<lambda>w. (speakerRole interviewer (wspeaker w), word w)) ws) ([], None, [])
             = (segs, cur, tx)"
    using segmentLoop_groupByRole [OF assms, of clk "[]" None "[]"] loop by simp
  have st: "loopState clk s ws = st"
    by (simp add: loopState_def loop)
  have rs: "roleSegments interviewer ws
              = (if trim tx \<noteq> [] then segs @ [(cur, trim tx)] else segs)"
    by (simp add: roleSegments_def g)
  show ?thesis
    unfolding handleDiarizedTranscript_def loop st rs
    by (simp add: Let_def)
qed

text \<open>
  Claim C2. In a session, that is any run of transcript events and timer expiries from a
  reset state, let the interviewer be the first speaker id carried by a word that reaches
  \<open>handleDiarizedTranscript\<close>, the words \<open>ws\<close> of the current event included. Then
  \<open>firstSpeakerId\<close> is the interviewer after the event, and the word loop gives every
  word its role: role 0 for a word of the interviewer, role 1 for a word of any other
  speaker, no role for a word without a speaker id. The segments the loop builds are the
  grouping of the words by these roles; the transcript sent to the window is labelled by
  them and the text handed to the question buffer is the text of the segments of role 0;
  every role that occurs is recorded as active and the last one becomes the active speaker.
  Once \<open>firstSpeakerId\<close> is set, no later run of events changes it (only
  \<open>resetVADState\<close> does).
\<close>

theorem speaker_roles_stable:
  fixes clk :: clock and s0 :: stt and evs evs' :: "stt_event list" and ws :: "dg_word list"
    and isFinal :: bool
  defines "s \<equiv> sttRun clk (resetVADState s0) evs"
  defines "interviewer \<equiv> firstSpeaker (concat (map observedWords evs) @ ws)"
  defines "roles \<equiv> map (\<lambda>w. speakerRole interviewer (wspeaker w)) ws"
  defines "after \<equiv> handleDiarizedTranscript clk s ws isFinal"
  shows "firstSpeakerId after = interviewer
       \<and> (\<forall>w \<in> set ws.
            mappedSpeaker (firstSpeakerId (identifyFirstSpeaker s ws)) (wspeaker w)
              = speakerRole interviewer (wspeaker w))
       \<and> (case segmentLoop clk ws ([], None, [], identifyFirstSpeaker s ws) of
            (segs, cur, tx, st) \<Rightarrow> (segs, cur, tx))
           = groupByRole (zip roles (map word ws)) ([], None, [])
       \<and> sent after
           = (if sttMainWindow s
              then sent s @ [trim (concat (map formatSegment (roleSegments interviewer ws)))]
              else sent s)
       \<and> after = snd (setTimeout ResetDiarizedFlag 500
           (let st = loopState clk s ws;
                speakerSegments = roleSegments interviewer ws;
                s2 = (if sttMainWindow st
                      then st\<lparr>sent := sent st @ [trim (concat (map formatSegment speakerSegments))]\<rparr>
                      else st);
                interviewerSegments = filter (\<lambda>seg. fst seg = Some 0) speakerSegments
            in if interviewerSegments \<noteq> []
               then updateQuestionBuffer clk s2 (join '' '' (map snd interviewerSegments))
                      (Some 0) isFinal
               else s2))
       \<and> (\<forall>r. Some r \<in> set roles \<longrightarrow> lastSpeakerActivity after r \<noteq> None)
       \<and> currentActiveSpeaker after
           = (if filter (\<lambda>r. r \<noteq> None) roles = [] then currentActiveSpeaker s
              else last (filter (\<lambda>r. r \<noteq> None) roles))
       \<and> (\<forall>f. firstSpeakerId s = Some f \<longrightarrow> firstSpeakerId (sttRun clk s evs') = Some f)"
proof -
  have fs: "firstSpeakerId (identifyFirstSpeaker s ws) = interviewer"
    unfolding s_def interviewer_def
    by (simp add: firstSpeakerId_identify firstSpeakerId_sttRun firstSpeaker_append)
  have known: "\<forall>w \<in> set ws. wspeaker w \<noteq> None \<longrightarrow> interviewer \<noteq> None"
  proof (intro ballI impI)
    fix w assume "w \<in> set ws" and "wspeaker w \<noteq> None"
    then have "firstSpeaker ws \<noteq> None"
      using firstSpeaker_member by blast
    then show "interviewer \<noteq> None"
      unfolding interviewer_def by (auto simp: firstSpeaker_append split: option.splits)
  qed
  have p1: "firstSpeakerId after = interviewer"
    unfolding after_def using fs by (simp add: firstSpeakerId_handleDiarizedTranscript)
  have p2: "\<forall>w \<in> set ws.
            mappedSpeaker (firstSpeakerId (identifyFirstSpeaker s ws)) (wspeaker w)
              = speakerRole interviewer (wspeaker w)"
  proof
    fix w assume "w \<in> set ws"
    with known have "wspeaker w \<noteq> None \<longrightarrow> interviewer \<noteq> None" by blast
    then show "mappedSpeaker (firstSpeakerId (identifyFirstSpeaker s ws)) (wspeaker w)
              = speakerRole interviewer (wspeaker w)"
      unfolding fs by (rule mappedSpeaker_role)
  qed
  have z: "zip roles (map word ws) = map (\<lambda>w. (speakerRole interviewer (wspeaker w), word w)) ws"
    unfolding roles_def by (induction ws) simp_all
  have p3: "(case segmentLoop clk ws ([], None, [], identifyFirstSpeaker s ws) of
            (segs, cur, tx, st) \<Rightarrow> (segs, cur, tx))
           = groupByRole (zip roles (map word ws)) ([], None, [])"
    unfolding z by (rule segmentLoop_groupByRole [OF fs known])
  have eq: "after = snd (setTimeout ResetDiarizedFlag 500
           (let st = loopState clk s ws;
                speakerSegments = roleSegments interviewer ws;
                s2 = (if sttMainWindow st
                      then st\<lparr>sent := sent st @ [trim (concat (map formatSegment speakerSegments))]\<rparr>
                      else st);
                interviewerSegments = filter (\<lambda>seg. fst seg = Some 0) speakerSegments
            in if interviewerSegments \<noteq> []
               then updateQuestionBuffer clk s2 (join '' '' (map snd interviewerSegments))
                      (Some 0) isFinal
               else s2))"
    unfolding after_def by (rule handleDiarizedTranscript_roles [OF fs known])
  have lf: "sent (loopState clk s ws) = sent s" "sttMainWindow (loopState clk s ws) = sttMainWindow s"
    using segmentLoop_fields [of clk ws "[]" None "[]" "identifyFirstSpeaker s ws"]
    by (simp_all add: loopState_def)
  have p4: "sent after
           = (if sttMainWindow s
              then sent s @ [trim (concat (map formatSegment (roleSegments interviewer ws)))]
              else sent s)"
    by (simp add: eq lf setTimeout_def Let_def)
  have act: "(\<forall>r. Some r \<in> set roles \<longrightarrow> lastSpeakerActivity (loopState clk s ws) r \<noteq> None)
       \<and> currentActiveSpeaker (loopState clk s ws)
           = (if filter (\<lambda>r. r \<noteq> None) roles = [] then currentActiveSpeaker s
              else last (filter (\<lambda>r. r \<noteq> None) roles))"
    using segmentLoop_activity [OF fs known, of clk "[]" None "[]"]
    unfolding roles_def loopState_def by simp
  have p5: "\<forall>r. Some r \<in> set roles \<longrightarrow> lastSpeakerActivity after r \<noteq> None"
    using act by (simp add: eq setTimeout_def Let_def)
  have p6: "currentActiveSpeaker after
           = (if filter (\<lambda>r. r \<noteq> None) roles = [] then currentActiveSpeaker s
              else last (filter (\<lambda>r. r \<noteq> None) roles))"
    using act by (simp add: eq setTimeout_def Let_def)
  have p7: "\<forall>f. firstSpeakerId s = Some f \<longrightarrow> firstSpeakerId (sttRun clk s evs') = Some f"
    by (simp add: firstSpeakerId_sttRun)
  show ?thesis
    by (intro conjI) (fact p1, fact p2, fact p3, fact p4, fact eq, fact p5, fact p6, fact p7)
qed

theorem speaker_roles_stable_witness:
  "mappedSpeaker (firstSpeakerId (identifyFirstSpeaker
       (sttRun exampleClock (resetVADState initialState) greeting) followUp)) (Some 4) = Some 1
   \<and> mappedSpeaker (firstSpeakerId (identifyFirstSpeaker
       (sttRun exampleClock (resetVADState initialState) greeting) followUp)) (Some 7) = Some 0
   \<and> mappedSpeaker (firstSpeakerId (identifyFirstSpeaker
       (sttRun exampleClock (resetVADState initialState) greeting) followUp)) None = None
   \<and> sent (handleDiarizedTranscript exampleClock
              (sttRun exampleClock (resetVADState initialState) greeting) followUp False)
       = sent (sttRun exampleClock (resetVADState initialState) greeting)
         @ [''You: so'' @ [CHR 0x0A] @ ''Interviewer: what'' @ [CHR 0x0A] @ ''You: now'']
   \<and> lastSpeakerActivity (handleDiarizedTranscript exampleClock
              (sttRun exampleClock (resetVADState initialState) greeting) followUp False) 0 \<noteq> None
   \<and> lastSpeakerActivity (handleDiarizedTranscript exampleClock
              (sttRun exampleClock (resetVADState initialState) greeting) followUp False) 1 \<noteq> None
   \<and> currentActiveSpeaker (handleDiarizedTranscript exampleClock
              (sttRun exampleClock (resetVADState initialState) greeting) followUp False) = Some 0"
proof -
  let ?S = "sttRun exampleClock (resetVADState initialState) greeting"
  note inst = speaker_roles_stable [of exampleClock initialState greeting followUp False]
  have i: "firstSpeaker (concat (map observedWords greeting) @ followUp) = Some 7"
    by code_simp
  have mw: "sttMainWindow ?S" by code_simp
  have msg: "trim (concat (map formatSegment (roleSegments (Some 7) followUp)))
      = ''You: so'' @ [CHR 0x0A] @ ''Interviewer: what'' @ [CHR 0x0A] @ ''You: now''"
    by code_simp
  have roles: "map (\<lambda>w. speakerRole (Some 7) (wspeaker w)) followUp = [Some 1, Some 0, None]"
    by code_simp
  have m: "\<forall>w \<in> set followUp.
      mappedSpeaker (firstSpeakerId (identifyFirstSpeaker ?S followUp)) (wspeaker w)
        = speakerRole (Some 7) (wspeaker w)"
    using inst [THEN conjunct2, THEN conjunct1] by (simp only: i)
  have m4: "mappedSpeaker (firstSpeakerId (identifyFirstSpeaker ?S followUp)) (Some 4) = Some 1"
    and m7: "mappedSpeaker (firstSpeakerId (identifyFirstSpeaker ?S followUp)) (Some 7) = Some 0"
    and m0: "mappedSpeaker (firstSpeakerId (identifyFirstSpeaker ?S followUp)) None = None"
    using m by (simp_all add: followUp_def speakerRole_def)
  have snt: "sent (handleDiarizedTranscript exampleClock ?S followUp False)
       = sent ?S @ [''You: so'' @ [CHR 0x0A] @ ''Interviewer: what'' @ [CHR 0x0A] @ ''You: now'']"
    using inst [THEN conjunct2, THEN conjunct2, THEN conjunct2, THEN conjunct1]
    by (simp only: i msg mw if_True)
  have act: "\<forall>r. Some r \<in> set [Some 1, Some 0, None]
      \<longrightarrow> lastSpeakerActivity (handleDiarizedTranscript exampleClock ?S followUp False) r \<noteq> None"
    using inst [THEN conjunct2, THEN conjunct2, THEN conjunct2, THEN conjunct2, THEN conjunct2,
               THEN conjunct1]
    by (simp only: i roles)
  have cas: "currentActiveSpeaker (handleDiarizedTranscript exampleClock ?S followUp False) = Some 0"
    using inst [THEN conjunct2, THEN conjunct2, THEN conjunct2, THEN conjunct2, THEN conjunct2,
               THEN conjunct2, THEN conjunct1]
    by (simp only: i roles) simp
  show ?thesis
    using m4 m7 m0 snt act cas by simp
qed

section \<open>The flush on a speaker switch\<close>

lemma mappedSpeaker_other:
  "isOther f w \<Longrightarrow> mappedSpeaker (Some f) (wspeaker w) = Some 1"
  by (auto simp: isOther_def mappedSpeaker_def split: option.splits)

lemma handleSpeakerActivity_same:
  assumes "currentActiveSpeaker t = Some sp"
  shows "handleSpeakerActivity clk t (Some sp)
           = t\<lparr>ticks := Suc (ticks t),
               lastSpeakerActivity := (lastSpeakerActivity t)(sp \<mapsto> clk (ticks t)),
               currentActiveSpeaker := Some sp\<rparr>"
  using assms by (simp add: handleSpeakerActivity_def tick_def Let_def)

lemma segmentLoop_other:
  assumes "firstSpeakerId t = Some f" and "list_all (isOther f) ws"
      and "currentActiveSpeaker t = Some 1"
  shows "\<exists>n m tx'. segmentLoop clk ws (segs, Some 1, tx, t)
           = (segs, Some 1, tx', t\<lparr>ticks := n, lastSpeakerActivity := m,
                                     currentActiveSpeaker := Some 1\<rparr>)"
  using assms
proof (induction ws arbitrary: tx t)
  case Nil
  have "t = t\<lparr>ticks := ticks t, lastSpeakerActivity := lastSpeakerActivity t,
              currentActiveSpeaker := Some 1\<rparr>"
    using Nil.prems(3) by simp
  then show ?case by (metis segmentLoop.simps(1))
next
  case (Cons w ws)
  let ?t1 = "t\<lparr>ticks := Suc (ticks t),
               lastSpeakerActivity := (lastSpeakerActivity t)(1 \<mapsto> clk (ticks t)),
               currentActiveSpeaker := Some 1\<rparr>"
  from Cons.prems have m: "mappedSpeaker (firstSpeakerId t) (wspeaker w) = Some 1"
    by (simp add: mappedSpeaker_other)
  have step: "segmentLoop clk (w # ws) (segs, Some 1, tx, t)
          = segmentLoop clk ws (segs, Some 1, tx @ '' '' @ word w, ?t1)"
    using m handleSpeakerActivity_same [OF Cons.prems(3), of clk]
    by (simp add: Let_def)
  have "firstSpeakerId ?t1 = Some f" "list_all (isOther f) ws" "currentActiveSpeaker ?t1 = Some 1"
    using Cons.prems by simp_all
  from Cons.IH [OF this, of "tx @ '' '' @ word w"]
  obtain n m' tx' where
    "segmentLoop clk ws (segs, Some 1, tx @ '' '' @ word w, ?t1)
       = (segs, Some 1, tx', ?t1\<lparr>ticks := n, lastSpeakerActivity := m',
                                   currentActiveSpeaker := Some 1\<rparr>)"
    by blast
  with step show ?case by auto
qed

lemma processQuestionBuffer_emits:
  assumes "questionBuffer a = Some qb" and "shouldEmit (tick a) qb (clk (ticks a))"
  shows "processQuestionBuffer clk a
           = clearCompletionTimer ((emitCompleteQuestion clk (tick a) (text' qb))\<lparr>questionBuffer := None\<rparr>)"
  using assms by (simp add: processQuestionBuffer_def Let_def)

lemma handleSpeakerActivity_switch:
  assumes "questionBuffer s = Some qb" and "speaker qb = Some 0"
      and "currentActiveSpeaker s = Some 0"
      and "clk (ticks s) - (case lastSpeakerActivity s 1 of None \<Rightarrow> 0 | Some t \<Rightarrow> t) > 1500"
  shows "handleSpeakerActivity clk s (Some 1)
           = (processQuestionBuffer clk
                (s\<lparr>ticks := Suc (ticks s),
                   lastSpeakerActivity := (lastSpeakerActivity s)(1 \<mapsto> clk (ticks s))\<rparr>))
             \<lparr>currentActiveSpeaker := Some 1\<rparr>"
  using assms
  by (simp add: handleSpeakerActivity_def tick_def Let_def SPEAKER_SWITCH_THRESHOLD_def)

lemma processQuestionBuffer_keeps:
  assumes "questionBuffer a = Some qb" and "\<not> shouldEmit (tick a) qb (clk (ticks a))"
  shows "processQuestionBuffer clk a = tick a"
  using assms by (simp add: processQuestionBuffer_def Let_def)

lemma processQuestionBuffer_switched:
  assumes "questionBuffer a = Some qb" and "currentActiveSpeaker a = Some c"
      and "Some c \<noteq> speaker qb"
  shows "questionBuffer (processQuestionBuffer clk a) = None"
proof -
  have "shouldEmit (tick a) qb (clk (ticks a))"
    using assms by (simp add: shouldEmit_def tick_def Let_def)
  then show ?thesis
    using assms(1) by (simp add: processQuestionBuffer_emits clearCompletionTimer_fields)
qed

text \<open>
  Claim C5 fails on the code. Let the buffer hold text of role 0 while role 0 is the active
  speaker, and let an event arrive whose words all carry a speaker id other than the first
  speaker's, with the last activity of role 1 more than 1500 ms old, so that the switch is
  detected. \<open>handleSpeakerActivity\<close> then calls \<open>processQuestionBuffer\<close> before it assigns
  \<open>currentActiveSpeaker\<close>, so the condition "speaker switched" of
  \<open>processQuestionBuffer\<close> is false at that call: if the buffered text is not complete
  and was updated less than 2000 ms before, the buffer is kept and nothing is emitted,
  whatever \<open>isFinal\<close> is. The same \<open>processQuestionBuffer\<close>, run on the state after
  the event, does flush the buffer.
\<close>

theorem speaker_switch_not_flushed:
  fixes clk clk' :: clock and s :: stt and qb :: QuestionBuffer
  assumes buf: "questionBuffer s = Some qb" "speaker qb = Some 0"
      and first: "firstSpeakerId s = Some f"
      and other: "ws \<noteq> []" "list_all (isOther f) ws"
      and active: "currentActiveSpeaker s = Some 0"
      and quiet: "clk (ticks s) - (case lastSpeakerActivity s 1 of None \<Rightarrow> 0 | Some t \<Rightarrow> t) > 1500"
      and incomplete: "\<not> isQuestionComplete (text' qb)"
      and recent: "clk (Suc (ticks s)) - lastUpdateTime qb < 2000"
  shows "questionBuffer (handleDiarizedTranscript clk s ws isFinal) = Some qb
       \<and> emitted (handleDiarizedTranscript clk s ws isFinal) = emitted s
       \<and> currentActiveSpeaker (handleDiarizedTranscript clk s ws isFinal) = Some 1
       \<and> questionBuffer (processQuestionBuffer clk' (handleDiarizedTranscript clk s ws isFinal))
           = None"
proof -
  obtain w ws' where ws: "ws = w # ws'"
    using other(1) by (cases ws) auto
  let ?A = "(lastSpeakerActivity s)(1 \<mapsto> clk (ticks s))"
  let ?s2 = "s\<lparr>ticks := Suc (ticks s), lastSpeakerActivity := ?A\<rparr>"
  let ?t = "(tick ?s2)\<lparr>currentActiveSpeaker := Some 1\<rparr>"
  have id: "identifyFirstSpeaker s ws = s"
    using first by (simp add: identifyFirstSpeaker_def)
  have se: "\<not> shouldEmit (tick ?s2) qb (clk (ticks ?s2))"
    using incomplete recent active buf(2)
    by (simp add: shouldEmit_def tick_def Let_def QUESTION_COMPLETION_PAUSE_def
          MAX_QUESTION_BUFFER_TIME_def)
  have pq: "processQuestionBuffer clk ?s2 = tick ?s2"
    using processQuestionBuffer_keeps [of ?s2 qb clk] buf(1) se by simp
  have hsa: "handleSpeakerActivity clk s (Some 1) = ?t"
    using handleSpeakerActivity_switch [of s qb clk] buf active quiet pq by simp
  have m: "mappedSpeaker (firstSpeakerId s) (wspeaker w) = Some 1"
    using other(2) first ws by (simp add: mappedSpeaker_other)
  have step: "segmentLoop clk ws ([], None, [], s)
                = segmentLoop clk ws' ([], Some 1, '' '' @ word w, ?t)"
    unfolding ws using m hsa by (simp add: Let_def trim_Nil)
  have t_first: "firstSpeakerId ?t = Some f"
    using first by simp
  have t_rest: "list_all (isOther f) ws'"
    using other(2) ws by simp
  have t_cas: "currentActiveSpeaker ?t = Some 1"
    by simp
  obtain n m' tx' where loop:
    "segmentLoop clk ws' ([], Some 1, '' '' @ word w, ?t)
       = ([], Some 1, tx', ?t\<lparr>ticks := n, lastSpeakerActivity := m',
                                currentActiveSpeaker := Some 1\<rparr>)"
    using segmentLoop_other [OF t_first t_rest t_cas, of clk "[]" "'' '' @ word w"] by blast
  let ?t' = "?t\<lparr>ticks := n, lastSpeakerActivity := m', currentActiveSpeaker := Some 1\<rparr>"
  let ?segs = "(if trim tx' \<noteq> [] then [(Some 1, trim tx')] else []) :: segment list"
  let ?sent = "(if sttMainWindow ?t'
                then ?t'\<lparr>sent := sent ?t' @ [trim (concat (map formatSegment ?segs))]\<rparr> else ?t')"
  let ?R = "snd (setTimeout ResetDiarizedFlag 500 ?sent)"
  have res: "handleDiarizedTranscript clk s ws isFinal = ?R"
    unfolding handleDiarizedTranscript_def id step loop
    by (simp add: Let_def)
  have qbR: "questionBuffer ?R = Some qb"
    using buf(1) by (simp add: setTimeout_def tick_def)
  have emR: "emitted ?R = emitted s"
    by (simp add: setTimeout_def tick_def)
  have casR: "currentActiveSpeaker ?R = Some 1"
    by (simp add: setTimeout_def)
  have later: "questionBuffer (processQuestionBuffer clk' ?R) = None"
    using processQuestionBuffer_switched [OF qbR casR, of clk'] buf(2) by simp
  show ?thesis
    using qbR emR casR later by (simp only: res)
qed

theorem speaker_switch_not_flushed_witness:
  "(questionBuffer approached = Some \<lparr>text' = ''tell me about your approach'', speaker = Some 0,
        lastUpdateTime = 100050, wordCount = 5, hasQuestionMarkers = False\<rparr>
    \<and> firstSpeakerId approached = Some 0
    \<and> list_all (isOther 0) (spoken 1 [''I'', ''would'', ''use'', ''a'', ''hashmap''])
    \<and> currentActiveSpeaker approached = Some 0
    \<and> exampleClock (ticks approached)
        - (case lastSpeakerActivity approached 1 of None \<Rightarrow> 0 | Some t \<Rightarrow> t) > 1500
    \<and> \<not> isQuestionComplete ''tell me about your approach''
    \<and> exampleClock (Suc (ticks approached)) - 100050 < 2000)
   \<and> questionBuffer (handleDiarizedTranscript exampleClock approached
         (spoken 1 [''I'', ''would'', ''use'', ''a'', ''hashmap'']) True)
       = Some \<lparr>text' = ''tell me about your approach'', speaker = Some 0,
               lastUpdateTime = 100050, wordCount = 5, hasQuestionMarkers = False\<rparr>
   \<and> emitted (handleDiarizedTranscript exampleClock approached
         (spoken 1 [''I'', ''would'', ''use'', ''a'', ''hashmap'']) True) = []"
proof -
  let ?qb = "\<lparr>text' = ''tell me about your approach'', speaker = Some 0,
        lastUpdateTime = 100050, wordCount = 5, hasQuestionMarkers = False\<rparr>"
  let ?ws = "spoken 1 [''I'', ''would'', ''use'', ''a'', ''hashmap'']"
  have buf: "questionBuffer approached = Some ?qb" by code_simp
  have spk: "speaker ?qb = Some 0" by simp
  have first: "firstSpeakerId approached = Some 0" by code_simp
  have ne: "?ws \<noteq> []" by (simp add: spoken_def)
  have other: "list_all (isOther 0) ?ws" by (simp add: spoken_def isOther_def)
  have active: "currentActiveSpeaker approached = Some 0" by code_simp
  have quiet: "exampleClock (ticks approached)
      - (case lastSpeakerActivity approached 1 of None \<Rightarrow> 0 | Some t \<Rightarrow> t) > 1500"
    by code_simp
  have inc: "\<not> isQuestionComplete ''tell me about your approach''" by code_simp
  then have incomplete: "\<not> isQuestionComplete (text' ?qb)" by simp
  have rec: "exampleClock (Suc (ticks approached)) - 100050 < 2000" by code_simp
  then have recent: "exampleClock (Suc (ticks approached)) - lastUpdateTime ?qb < 2000" by simp
  have em: "emitted approached = []" by code_simp
  show ?thesis
    using buf first other active quiet inc rec em
      speaker_switch_not_flushed [OF buf spk first ne other active quiet incomplete recent,
        where isFinal = True and clk' = exampleClock]
    by simp
qed

section \<open>One call at a time\<close>

lemma isCurrentlyProcessing_processNextInQueue [simp]:
  "isCurrentlyProcessing (processNextInQueue s) = isCurrentlyProcessing s"
  by (simp add: processNextInQueue_def Let_def split: list.splits)

lemma singleFlight_processNextInQueue [simp]:
  "singleFlight (processNextInQueue s) = singleFlight s"
  by (simp add: singleFlight_def)



lemma singleFlight_timers [simp]: "singleFlight (s\<lparr>pendingTimers := ts\<rparr>) = singleFlight s"
  by (simp add: singleFlight_def)









section \<open>The lock timeout\<close>

text \<open>
  A call has been in flight for 39 seconds with two transcripts queued. An arriving valid
  transcript is dispatched itself, ahead of the queue, and the queue is left as it was; an
  arriving transcript that is not a valid question only releases the lock, and nothing is
  dispatched or scheduled.
\<close>

theorem lock_timeout_counterexample:
  "calls (handleSpeechTranscription stuck ''Explain binary search'' 40000)
     = [''What is a hash map?'', ''Explain binary search'']
   \<and> processingQueue (handleSpeechTranscription stuck ''Explain binary search'' 40000)
     = [''How does a heap work?'', ''Why is quicksort fast?'']
   \<and> pendingTimers (handleSpeechTranscription stuck ''Explain binary search'' 40000) = []
   \<and> calls (handleSpeechTranscription stuck ''I think so too, yes.'' 40000)
     = [''What is a hash map?'']
   \<and> processingQueue (handleSpeechTranscription stuck ''I think so too, yes.'' 40000)
     = [''How does a heap work?'', ''Why is quicksort fast?'']
   \<and> pendingTimers (handleSpeechTranscription stuck ''I think so too, yes.'' 40000) = []"
  by code_simp

text \<open>
  Claim C6, amended. The timeout is checked only when a transcript arrives. If a transcript
  that passes the length and duplicate checks arrives while the lock is held and more than
  30000 ms after the last dispatch, the lock is released and the arriving transcript is
  handled as if no call were in flight: if it is a valid interview question and the helper
  is present it is dispatched at once, and the queue and the timers are left unchanged; if
  it is not valid, only the lock is released.
\<close>

theorem lock_timeout_release:
  assumes "lockTimedOut s transcript now"
  shows "handleSpeechTranscription s transcript now
           = handleSpeechTranscription (s\<lparr>isCurrentlyProcessing := False\<rparr>) transcript now
       \<and> (isValidInterviewQuestion (trim transcript) \<and> processingHelper s \<longrightarrow>
            handleSpeechTranscription s transcript now
              = s\<lparr>isCurrentlyProcessing := True, lastProcessedText := trim transcript,
                  lastProcessedTime := now, calls := calls s @ [trim transcript],
                  inFlight := inFlight s @ [length (calls s)]\<rparr>
            \<and> processingQueue (handleSpeechTranscription s transcript now) = processingQueue s
            \<and> pendingTimers (handleSpeechTranscription s transcript now) = pendingTimers s)
       \<and> (\<not> isValidInterviewQuestion (trim transcript) \<longrightarrow>
            handleSpeechTranscription s transcript now = s\<lparr>isCurrentlyProcessing := False\<rparr>)"
  using assms
  by (auto simp: lockTimedOut_def handleSpeechTranscription_def Let_def)

theorem lock_timeout_release_witness:
  "lockTimedOut stuck ''Explain binary search'' 40000
   \<and> (isValidInterviewQuestion (trim ''Explain binary search'') \<and> processingHelper stuck)
   \<and> processingQueue (handleSpeechTranscription stuck ''Explain binary search'' 40000)
        = processingQueue stuck
   \<and> lockTimedOut stuck ''I think so too, yes.'' 40000
   \<and> \<not> isValidInterviewQuestion (trim ''I think so too, yes.'')
   \<and> handleSpeechTranscription stuck ''I think so too, yes.'' 40000
        = stuck\<lparr>isCurrentlyProcessing := False\<rparr>"
proof -
  have h1: "lockTimedOut stuck ''Explain binary search'' 40000" by code_simp
  have v1: "isValidInterviewQuestion (trim ''Explain binary search'') \<and> processingHelper stuck"
    by code_simp
  have h2: "lockTimedOut stuck ''I think so too, yes.'' 40000" by code_simp
  have v2: "\<not> isValidInterviewQuestion (trim ''I think so too, yes.'')" by code_simp
  show ?thesis
    using h1 v1 h2 v2 lock_timeout_release [OF h1] lock_timeout_release [OF h2]
    by blast
qed


end
